theory Spec2Isabelle
  imports Main "HOL-Library.Word" "HOL-Library.AList"
begin

text \<open>
  A model of the form builder (FormBuilder.tsx, with the field editor FormFieldBuilder)
  and of the form viewer (FormViewer.tsx) of the form application. Each handler of the
  source is a function from the state it reads to the state it leaves; what a handler
  takes from outside (the clock, the signed-in user, the store's answer) is an argument.
  The definitions come first, in the order of the source; the facts about them follow.
\<close>

section \<open>JavaScript values used by the form builder and the form viewer\<close>

text \<open>
  A JavaScript string is a sequence of UTF-16 code units. \<open>js\<close> writes a literal of the
  source (all of them are ASCII) as such a sequence.
\<close>

type_synonym jschar = "16 word"
type_synonym jsstring = "jschar list"

definition js :: "string \<Rightarrow> jsstring" where
  "js s = map (\<lambda>c. of_nat (of_char c)) s"

text \<open>
  \<open>String.prototype.trim\<close> removes the code units of ECMAScript's WhiteSpace and
  LineTerminator productions from both ends: TAB, LF, VT, FF, CR, SP, NBSP, U+1680,
  U+2000 to U+200A, LS, PS, U+202F, U+205F, U+3000 and the byte order mark.
\<close>

definition isWhiteSpace :: "jschar \<Rightarrow> bool" where
  "isWhiteSpace c \<longleftrightarrow>
     c \<in> {0x9, 0xA, 0xB, 0xC, 0xD, 0x20, 0xA0, 0x1680, 0x2028, 0x2029, 0x202F, 0x205F,
          0x3000, 0xFEFF}
     \<or> (0x2000 \<le> c \<and> c \<le> 0x200A)"

definition trim :: "jsstring \<Rightarrow> jsstring" where
  "trim s = rev (dropWhile isWhiteSpace (rev (dropWhile isWhiteSpace s)))"

text \<open>
  The decimal rendering of an integer in a template literal, as \<open>Date.now()\<close> is
  rendered in \<open>`field_${Date.now()}`\<close>. The clock's range (at most 8.64e15 in absolute
  value) is far below the numbers that JavaScript prints with an exponent.
\<close>

fun digits :: "nat \<Rightarrow> jsstring" where
  "digits n = (if n < 10 then [of_nat (48 + n)]
               else digits (n div 10) @ [of_nat (48 + n mod 10)])"

declare digits.simps [simp del]

definition numberToString :: "int \<Rightarrow> jsstring" where
  "numberToString i = (if i < 0 then 0x2D # digits (nat (- i)) else digits (nat i))"

text \<open>
  \<open>Array.prototype.findIndex\<close>: the index of the first element that satisfies the
  predicate, \<open>-1\<close> when there is none.
\<close>

fun findIndex :: "('a \<Rightarrow> bool) \<Rightarrow> 'a list \<Rightarrow> int" where
  "findIndex P [] = - 1"
| "findIndex P (x # xs) =
     (if P x then 0 else (let r = findIndex P xs in if r < 0 then - 1 else r + 1))"

text \<open>
  Element reads and writes of a JavaScript array whose slots may hold \<open>undefined\<close>
  (\<open>None\<close>). A read outside \<open>0 .. length - 1\<close> gives \<open>undefined\<close>. A write at a negative
  index creates a property named by the number and touches no element; a write past
  the end extends the array with empty slots.
\<close>

definition arrayGet :: "'a option list \<Rightarrow> int \<Rightarrow> 'a option" where
  "arrayGet a i = (if 0 \<le> i \<and> i < int (length a) then a ! nat i else None)"

definition arraySet :: "'a option list \<Rightarrow> int \<Rightarrow> 'a option \<Rightarrow> 'a option list" where
  "arraySet a i v =
     (if i < 0 then a
      else if i < int (length a) then a[nat i := v]
      else a @ replicate (nat i - length a) None @ [v])"


section \<open>Form fields (FormBuilder.tsx, FormFieldBuilder)\<close>

datatype field_type =
  short_text | "paragraph" | multiple_choice | checkbox | dropdown | date | file_upload

text \<open>
  \<open>interface FormField\<close>. The optional attributes \<open>options\<close> and \<open>placeholder\<close> are
  \<open>None\<close> when undefined. The attributes \<open>id\<close> and \<open>type\<close> are written \<open>id_f\<close> and
  \<open>type_f\<close>.
\<close>

record FormField =
  id_f :: jsstring
  type_f :: field_type
  label :: jsstring
  required :: bool
  options :: "jsstring list option"
  placeholder :: "jsstring option"

text \<open>
  \<open>Partial<FormField>\<close>: \<open>None\<close> is a key that the object does not have. For the two
  optional attributes a key can be present with the value \<open>undefined\<close> (\<open>Some None\<close>), as
  \<open>updates.options = undefined\<close> makes it.
\<close>

record Updates =
  u_id :: "jsstring option"
  u_type :: "field_type option"
  u_label :: "jsstring option"
  u_required :: "bool option"
  u_options :: "jsstring list option option"
  u_placeholder :: "jsstring option option"

definition noUpdates :: Updates where
  "noUpdates = \<lparr>u_id = None, u_type = None, u_label = None, u_required = None,
                 u_options = None, u_placeholder = None\<rparr>"

text \<open>The object spread \<open>{ ...field, ...updates }\<close>.\<close>

definition spread :: "FormField \<Rightarrow> Updates \<Rightarrow> FormField" where
  "spread field updates =
     \<lparr>id_f = (case u_id updates of None \<Rightarrow> id_f field | Some v \<Rightarrow> v),
      type_f = (case u_type updates of None \<Rightarrow> type_f field | Some v \<Rightarrow> v),
      label = (case u_label updates of None \<Rightarrow> label field | Some v \<Rightarrow> v),
      required = (case u_required updates of None \<Rightarrow> required field | Some v \<Rightarrow> v),
      options = (case u_options updates of None \<Rightarrow> options field | Some v \<Rightarrow> v),
      placeholder =
        (case u_placeholder updates of None \<Rightarrow> placeholder field | Some v \<Rightarrow> v)\<rparr>"

text \<open>
  The builder's operations, each as the function that its updater applies to
  \<open>prev.fields\<close>; the updater copies the other attributes of \<open>prev\<close> unchanged.
  \<open>addField\<close> takes the reading of \<open>Date.now()\<close>.
\<close>

definition newField :: "int \<Rightarrow> FormField" where
  "newField now =
     \<lparr>id_f = js ''field_'' @ numberToString now, type_f = short_text, label = [],
      required = False, options = None, placeholder = Some []\<rparr>"

definition addField :: "int \<Rightarrow> FormField list \<Rightarrow> FormField list" where
  "addField now prev = prev @ [newField now]"

definition updateField :: "jsstring \<Rightarrow> Updates \<Rightarrow> FormField list \<Rightarrow> FormField list" where
  "updateField fieldId updates prev =
     map (\<lambda>field. if id_f field = fieldId then spread field updates else field) prev"

definition removeField :: "jsstring \<Rightarrow> FormField list \<Rightarrow> FormField list" where
  "removeField fieldId prev = filter (\<lambda>field. id_f field \<noteq> fieldId) prev"

datatype direction = Up | Down

text \<open>
  \<open>moveField\<close> copies the array (\<open>arr\<close> is the copy that the source calls
  \<open>fields\<close>), looks the id up and swaps two slots by a destructuring
  assignment: the right-hand side \<open>[arr[newIndex], arr[index]]\<close> is read first,
  then \<open>arr[index]\<close> and \<open>arr[newIndex]\<close> are written in this order. The result
  is the array that the state holds afterwards, slot by slot.
\<close>

definition moveField ::
  "jsstring \<Rightarrow> direction \<Rightarrow> FormField list \<Rightarrow> FormField option list" where
  "moveField fieldId direction prev =
     (let arr = map Some prev;
          index = findIndex (\<lambda>f. id_f f = fieldId) prev;
          newIndex = (if direction = Up then index - 1 else index + 1)
      in if newIndex < 0 \<or> newIndex \<ge> int (length arr) then map Some prev
         else let a = arrayGet arr newIndex; b = arrayGet arr index
              in arraySet (arraySet arr index a) newIndex b)"

text \<open>
  The field-type selector of \<open>FormFieldBuilder\<close>. \<open>typeUpdates\<close> builds the object
  \<open>updates\<close> of its \<open>onValueChange\<close> from the rendered field and the chosen type;
  \<open>onValueChange\<close> passes it to \<open>onUpdate\<close>, which FormBuilder.tsx binds to
  \<open>updateField(field.id, updates)\<close>.
\<close>

definition isChoice :: "field_type \<Rightarrow> bool" where
  "isChoice t \<longleftrightarrow> t \<in> {multiple_choice, checkbox, dropdown}"

definition typeUpdates :: "FormField \<Rightarrow> field_type \<Rightarrow> Updates" where
  "typeUpdates field v =
     (let updates = noUpdates\<lparr>u_type := Some v\<rparr>;
          updates = (if \<not> isChoice v then updates\<lparr>u_options := Some None\<rparr> else updates);
          updates = (if isChoice v \<and> options field = None
                     then updates\<lparr>u_options := Some (Some [js ''Option 1'', js ''Option 2''])\<rparr>
                     else updates)
      in updates)"

definition onValueChange :: "FormField \<Rightarrow> field_type \<Rightarrow> FormField list \<Rightarrow> FormField list" where
  "onValueChange field v prev = updateField (id_f field) (typeUpdates field v) prev"

text \<open>
  The invariant of the data model: \<open>options\<close> is defined exactly for the three choice
  types. \<open>slotsOk\<close> reads it on an array whose slots may be undefined, where an
  undefined slot is not a field.
\<close>

definition fieldOk :: "FormField \<Rightarrow> bool" where
  "fieldOk f \<longleftrightarrow> (options f \<noteq> None) = isChoice (type_f f)"

definition fieldsOk :: "FormField list \<Rightarrow> bool" where
  "fieldsOk fs \<longleftrightarrow> list_all fieldOk fs"

definition slotsOk :: "FormField option list \<Rightarrow> bool" where
  "slotsOk slots \<longleftrightarrow> list_all (\<lambda>s. case s of None \<Rightarrow> False | Some f \<Rightarrow> fieldOk f) slots"


section \<open>Saving a form (FormBuilder.tsx, handleSave)\<close>

text \<open>
  \<open>interface FormData\<close>, the builder's state; its attribute \<open>fields\<close> is written
  \<open>fields_f\<close>. The flags \<open>loading\<close> and \<open>saving\<close> only drive the display and are not part
  of the model.
\<close>

record FormData =
  title :: jsstring
  description :: jsstring
  fields_f :: "FormField list"
  is_published :: bool

record FormPayload =
  p_title :: jsstring
  p_description :: jsstring
  p_fields :: "FormField list"
  p_is_published :: bool
  p_owner_id :: jsstring

text \<open>The call that reaches the store: an update of the row of a form id, or an insert.\<close>

datatype store_call = UpdateForm jsstring FormPayload | InsertForm FormPayload

fun payloadOf :: "store_call \<Rightarrow> FormPayload" where
  "payloadOf (UpdateForm i p) = p"
| "payloadOf (InsertForm p) = p"

datatype save_toast = EnterTitle | SaveSucceeded | SaveFailed

text \<open>
  What \<open>handleSave\<close> reads from outside: the route's \<open>formId\<close>, the user of
  \<open>supabase.auth.getUser()\<close> (\<open>None\<close> for null) and whether the store answers the call with
  an error.
\<close>

record SaveEnv =
  formId :: "jsstring option"
  user :: "jsstring option"
  storeError :: bool

record SaveOutcome =
  formData :: FormData
  sent :: "store_call option"
  navigated :: bool
  save_toast :: save_toast

definition handleSave :: "SaveEnv \<Rightarrow> bool \<Rightarrow> FormData \<Rightarrow> SaveOutcome" where
  "handleSave env publish prev =
     (if trim (title prev) = []
      then \<lparr>formData = prev, sent = None, navigated = False, save_toast = EnterTitle\<rparr>
      else case user env of
        None \<Rightarrow> \<lparr>formData = prev, sent = None, navigated = False, save_toast = SaveFailed\<rparr>
      | Some uid \<Rightarrow>
          let formPayload =
                \<lparr>p_title = title prev, p_description = description prev,
                 p_fields = fields_f prev,
                 p_is_published = (publish \<or> is_published prev), p_owner_id = uid\<rparr>;
              existing = (case formId env of None \<Rightarrow> False | Some i \<Rightarrow> i \<noteq> []);
              call = (case formId env of
                        None \<Rightarrow> InsertForm formPayload
                      | Some i \<Rightarrow> if i \<noteq> [] then UpdateForm i formPayload
                                 else InsertForm formPayload)
          in if storeError env
             then \<lparr>formData = prev, sent = Some call, navigated = False,
                   save_toast = SaveFailed\<rparr>
             else if \<not> existing
             then \<lparr>formData = prev, sent = Some call, navigated = True,
                   save_toast = SaveSucceeded\<rparr>
             else \<lparr>formData = prev\<lparr>is_published := (publish \<or> is_published prev)\<rparr>,
                   sent = Some call, navigated = False, save_toast = SaveSucceeded\<rparr>)"


section \<open>Answers and validation (FormViewer.tsx)\<close>

text \<open>
  The values that the viewer stores in \<open>answers\<close>: the string of a text, radio, select,
  date or file input, or the array of strings of a checkbox group. The map holds the
  object's own properties: \<open>updateAnswer\<close> makes them with a spread and a computed key,
  which define an own property under every key.
\<close>

datatype answer = Str jsstring | Arr "jsstring list"

datatype js_error = TypeError

text \<open>
  \<open>answers\<close> and \<open>errors\<close> are plain objects, so a read \<open>answers[k]\<close> that finds no own
  property goes on to \<open>Object.prototype\<close>. Under the twelve names below it finds a
  method of \<open>Object.prototype\<close> or, under \<open>__proto__\<close>, \<open>Object.prototype\<close> itself. Such
  a value is truthy, is not an array, cannot be iterated, has none of the methods
  \<open>trim\<close>, \<open>filter\<close> and \<open>includes\<close>, and its \<open>toString()\<close> is the source text of a native
  function or \<open>[object Object]\<close>, which is not blank. Under any other name the read
  gives \<open>undefined\<close>.
\<close>

definition objectPrototype :: "jsstring list" where
  "objectPrototype =
     [js ''constructor'', js ''__defineGetter__'', js ''__defineSetter__'',
      js ''hasOwnProperty'', js ''__lookupGetter__'', js ''__lookupSetter__'',
      js ''isPrototypeOf'', js ''propertyIsEnumerable'', js ''toString'', js ''valueOf'',
      js ''__proto__'', js ''toLocaleString'']"

definition inherited :: "jsstring \<Rightarrow> bool" where
  "inherited k \<longleftrightarrow> k \<in> set objectPrototype"

datatype js_read = Undefined | Own answer | Inherited

definition getAnswer :: "(jsstring \<rightharpoonup> answer) \<Rightarrow> jsstring \<Rightarrow> js_read" where
  "getAnswer ans k =
     (case ans k of
        Some v \<Rightarrow> Own v
      | None \<Rightarrow> if inherited k then Inherited else Undefined)"

fun truthy :: "js_read \<Rightarrow> bool" where
  "truthy Undefined = False"
| "truthy (Own (Str t)) = (t \<noteq> [])"
| "truthy (Own (Arr xs)) = True"
| "truthy Inherited = True"

text \<open>\<open>Array.prototype.toString\<close> joins the elements with commas.\<close>

fun join :: "jsstring list \<Rightarrow> jsstring" where
  "join [] = []"
| "join [x] = x"
| "join (x # y # ys) = x @ 0x2C # join (y # ys)"

fun toString :: "answer \<Rightarrow> jsstring" where
  "toString (Str t) = t"
| "toString (Arr xs) = join xs"

text \<open>
  The viewer's state. \<open>form\<close> holds the fields of the fetched form, \<open>None\<close> while
  \<open>form\<close> is null: the functions modelled here read nothing else of it. \<open>errors\<close> keeps
  its keys in insertion order, so that \<open>Object.keys(newErrors).length\<close> is the length of
  the list.
\<close>

record Viewer =
  form :: "FormField list option"
  routeFormId :: "jsstring option"
  submitting :: bool
  submitted :: bool
  answers :: "jsstring \<rightharpoonup> answer"
  errors :: "(jsstring \<times> jsstring) list"
  startTime :: int
  userEmail :: jsstring
  userName :: jsstring

text \<open>\<open>form?.fields\<close>: no field while \<open>form\<close> is null.\<close>

definition fieldsOf :: "Viewer \<Rightarrow> FormField list" where
  "fieldsOf s = (case form s of None \<Rightarrow> [] | Some fs \<Rightarrow> fs)"

text \<open>
  The test \<open>!a || !a.trim()\<close> of the two reserved keys. An array is truthy and has no
  method \<open>trim\<close>, so the call throws; so does it on an inherited value.
\<close>

definition blank :: "js_read \<Rightarrow> js_error + bool" where
  "blank a = (case a of
                Undefined \<Rightarrow> Inr True
              | Own (Str t) \<Rightarrow> Inr (t = [] \<or> trim t = [])
              | Own (Arr xs) \<Rightarrow> Inl TypeError
              | Inherited \<Rightarrow> Inl TypeError)"

text \<open>
  The test of a required field:
  \<open>!answer || (Array.isArray(answer) && answer.length === 0) || answer.toString().trim() === ''\<close>.
\<close>

definition answerMissing :: "js_read \<Rightarrow> bool" where
  "answerMissing a =
     (case a of
        Undefined \<Rightarrow> True
      | Own v \<Rightarrow>
          \<not> truthy a \<or> (case v of Arr xs \<Rightarrow> xs = [] | Str t \<Rightarrow> False)
          \<or> trim (toString v) = []
      | Inherited \<Rightarrow> False)"

text \<open>
  The assignment \<open>newErrors[k] = message\<close>. Under \<open>__proto__\<close> it calls the inherited
  setter, which ignores a string, so the object gets no key; under every other name it
  makes or overwrites an own property.
\<close>

definition setError ::
  "jsstring \<Rightarrow> jsstring \<Rightarrow> (jsstring \<times> jsstring) list \<Rightarrow> (jsstring \<times> jsstring) list" where
  "setError k m newErrors =
     (if k = js ''__proto__'' then newErrors else AList.update k m newErrors)"

text \<open>One turn of the loop over the fields.\<close>

definition checkField ::
  "(jsstring \<rightharpoonup> answer) \<Rightarrow> (jsstring \<times> jsstring) list \<Rightarrow> FormField
     \<Rightarrow> (jsstring \<times> jsstring) list" where
  "checkField ans newErrors field =
     (if required field \<and> answerMissing (getAnswer ans (id_f field))
      then setError (id_f field) (js ''This field is required'') newErrors
      else newErrors)"

text \<open>The object \<open>newErrors\<close> that \<open>validateForm\<close> builds.\<close>

definition newErrorsOf :: "Viewer \<Rightarrow> js_error + (jsstring \<times> jsstring) list" where
  "newErrorsOf s =
     (case (if userEmail s = [] then blank (getAnswer (answers s) (js ''user_email''))
            else Inr False) of
        Inl e \<Rightarrow> Inl e
      | Inr noEmail \<Rightarrow>
          (case (if userName s = [] then blank (getAnswer (answers s) (js ''user_name''))
                 else Inr False) of
             Inl e \<Rightarrow> Inl e
           | Inr noName \<Rightarrow>
               let e0 = [];
                   e1 = (if noEmail
                         then setError (js ''user_email'') (js ''Email is required'') e0
                         else e0);
                   e2 = (if noName
                         then setError (js ''user_name'') (js ''Name is required'') e1
                         else e1)
               in Inr (foldl (checkField (answers s)) e2 (fieldsOf s))))"

text \<open>
  \<open>validateForm\<close> stores \<open>newErrors\<close> and returns whether it has no key. The same
  function in the second copy of the viewer (which has no \<open>userEmail\<close> and \<open>userName\<close>)
  is the loop over the fields alone, starting from the empty object.
\<close>

definition validateForm :: "Viewer \<Rightarrow> js_error + bool \<times> Viewer" where
  "validateForm s =
     (case newErrorsOf s of
        Inl e \<Rightarrow> Inl e
      | Inr newErrors \<Rightarrow> Inr (length (map fst newErrors) = 0, s\<lparr>errors := newErrors\<rparr>))"



section \<open>Submitting (FormViewer.tsx, handleSubmit)\<close>

text \<open>
  What \<open>handleSubmit\<close> reads from outside: the clock, the id of the user of
  \<open>supabase.auth.getUser()\<close>, whether the insert into \<open>form_responses\<close> returns an error,
  and the browser's user agent.
\<close>

record SubmitEnv =
  dateNow :: int
  authUserId :: "jsstring option"
  insertError :: bool
  userAgent :: jsstring

record Submission =
  r_form_id :: "jsstring option"
  r_user_id :: "jsstring option"
  r_answers :: "jsstring \<rightharpoonup> answer"
  r_time_taken :: int
  r_user_agent :: jsstring
  r_tab_switches :: int

datatype submit_toast = ValidationErrorToast | SubmitSucceeded | SubmitFailed

text \<open>
  \<open>request\<close> is the row passed to \<open>insert\<close>, \<open>None\<close> when \<open>insert\<close> is not called. A
  Response exists afterwards when a row was passed and the store did not refuse it.
\<close>

record SubmitOutcome =
  state :: Viewer
  request :: "Submission option"
  submit_toast :: submit_toast

text \<open>
  \<open>a || b\<close> on a string state and a read answer, as the stored JSON keeps it: the state
  when it is not empty, the answer otherwise. A key whose value is undefined or a
  function is left out of the JSON.
\<close>

definition orAnswer :: "jsstring \<Rightarrow> js_read \<Rightarrow> answer option" where
  "orAnswer u a =
     (if u \<noteq> [] then Some (Str u)
      else case a of Own v \<Rightarrow> Some v | Undefined \<Rightarrow> None | Inherited \<Rightarrow> None)"

text \<open>
  \<open>Math.round((Date.now() - startTime) / 1000)\<close> on integers: halves round up.
\<close>

definition timeTaken :: "int \<Rightarrow> int \<Rightarrow> int" where
  "timeTaken t start = (t - start + 500) div 1000"

definition handleSubmit :: "SubmitEnv \<Rightarrow> Viewer \<Rightarrow> js_error + SubmitOutcome" where
  "handleSubmit env s =
     (case validateForm s of
        Inl e \<Rightarrow> Inl e
      | Inr (valid, s1) \<Rightarrow>
          if \<not> valid
          then Inr \<lparr>state = s1, request = None, submit_toast = ValidationErrorToast\<rparr>
          else
            let submissionData =
                  \<lparr>r_form_id = routeFormId s1,
                   r_user_id = (case authUserId env of
                                  None \<Rightarrow> None
                                | Some u \<Rightarrow> if u \<noteq> [] then Some u else None),
                   r_answers = (answers s1)
                     (js ''user_email'' :=
                        orAnswer (userEmail s1) (getAnswer (answers s1) (js ''user_email'')),
                      js ''user_name'' :=
                        orAnswer (userName s1) (getAnswer (answers s1) (js ''user_name''))),
                   r_time_taken = timeTaken (dateNow env) (startTime s1),
                   r_user_agent = userAgent env,
                   r_tab_switches = 0\<rparr>
            in if insertError env
               then Inr \<lparr>state = s1\<lparr>submitting := False\<rparr>, request = Some submissionData,
                         submit_toast = SubmitFailed\<rparr>
               else Inr \<lparr>state = s1\<lparr>submitting := False, submitted := True\<rparr>,
                         request = Some submissionData, submit_toast = SubmitSucceeded\<rparr>)"


section \<open>Editing answers (FormViewer.tsx, updateAnswer and the checkbox group)\<close>

text \<open>
  \<open>updateAnswer\<close> stores the value under the key and, when \<open>errors[fieldId]\<close> is truthy
  (a message that is not the empty string), deletes that key from \<open>errors\<close>. Where the
  read finds an inherited value and no message, the \<open>delete\<close> removes nothing.
\<close>

definition updateAnswer :: "jsstring \<Rightarrow> answer \<Rightarrow> Viewer \<Rightarrow> Viewer" where
  "updateAnswer fieldId v s =
     s\<lparr>answers := (answers s)(fieldId \<mapsto> v),
       errors := (case map_of (errors s) fieldId of
                    None \<Rightarrow> errors s
                  | Some m \<Rightarrow> if m \<noteq> [] then AList.delete fieldId (errors s) else errors s)\<rparr>"

text \<open>
  The iteration of a string by the spread \<open>[...currentOptions, option]\<close>: one string per
  code point, a surrogate pair staying together.
\<close>

fun stringIterator :: "jsstring \<Rightarrow> jsstring list" where
  "stringIterator [] = []"
| "stringIterator [c] = [[c]]"
| "stringIterator (c # d # cs) =
     (if 0xD800 \<le> c \<and> c \<le> 0xDBFF \<and> 0xDC00 \<le> d \<and> d \<le> 0xDFFF
      then [c, d] # stringIterator cs
      else [c] # stringIterator (d # cs))"

text \<open>\<open>answers[field.id] || []\<close>.\<close>

definition currentOptions :: "js_read \<Rightarrow> js_read" where
  "currentOptions a = (if truthy a then a else Own (Arr []))"

text \<open>
  The spread \<open>[...currentOptions]\<close> and the call \<open>currentOptions.filter(o => o !== option)\<close>.
  A string is iterated but has no method \<open>filter\<close>; an inherited value allows neither.
\<close>

definition spreadRead :: "js_read \<Rightarrow> js_error + jsstring list" where
  "spreadRead a = (case a of
                     Own (Arr xs) \<Rightarrow> Inr xs
                   | Own (Str t) \<Rightarrow> Inr (stringIterator t)
                   | Inherited \<Rightarrow> Inl TypeError
                   | Undefined \<Rightarrow> Inl TypeError)"

definition filterRead :: "js_read \<Rightarrow> jsstring \<Rightarrow> js_error + jsstring list" where
  "filterRead a opt = (case a of
                         Own (Arr xs) \<Rightarrow> Inr (filter (\<lambda>x. x \<noteq> opt) xs)
                       | Own (Str t) \<Rightarrow> Inl TypeError
                       | Inherited \<Rightarrow> Inl TypeError
                       | Undefined \<Rightarrow> Inl TypeError)"

text \<open>
  \<open>onCheckedChange\<close> of the checkbox that the viewer renders for an option of a
  checkbox field.
\<close>

definition onCheckedChange ::
  "FormField \<Rightarrow> jsstring \<Rightarrow> bool \<Rightarrow> Viewer \<Rightarrow> js_error + Viewer" where
  "onCheckedChange field opt checked s =
     (let cur = currentOptions (getAnswer (answers s) (id_f field))
      in if checked
         then (case spreadRead cur of
                 Inl e \<Rightarrow> Inl e
               | Inr xs \<Rightarrow> Inr (updateAnswer (id_f field) (Arr (xs @ [opt])) s))
         else (case filterRead cur opt of
                 Inl e \<Rightarrow> Inl e
               | Inr xs \<Rightarrow> Inr (updateAnswer (id_f field) (Arr xs) s)))"

text \<open>
  The attribute \<open>checked={selectedOptions.includes(option)}\<close> of that checkbox, with
  \<open>selectedOptions = answers[field.id] || []\<close>: membership in an array, and
  \<open>String.prototype.includes\<close> (the option occurs as a substring) on a string.
\<close>

fun startsWith :: "jsstring \<Rightarrow> jsstring \<Rightarrow> bool" where
  "startsWith t [] = True"
| "startsWith [] (p # ps) = False"
| "startsWith (c # cs) (p # ps) = (c = p \<and> startsWith cs ps)"

fun includesString :: "jsstring \<Rightarrow> jsstring \<Rightarrow> bool" where
  "includesString [] p = (p = [])"
| "includesString (c # cs) p = (startsWith (c # cs) p \<or> includesString cs p)"

definition isChecked :: "FormField \<Rightarrow> jsstring \<Rightarrow> Viewer \<Rightarrow> js_error + bool" where
  "isChecked field opt s =
     (case currentOptions (getAnswer (answers s) (id_f field)) of
        Own (Arr xs) \<Rightarrow> Inr (opt \<in> set xs)
      | Own (Str t) \<Rightarrow> Inr (includesString t opt)
      | Inherited \<Rightarrow> Inl TypeError
      | Undefined \<Rightarrow> Inl TypeError)"

text \<open>
  A click on that checkbox. The checkbox is controlled: it shows the attribute
  \<open>checked\<close> and a click calls \<open>onCheckedChange\<close> with its negation. A click on an
  unticked box selects the option, a click on a ticked box deselects it. Where the
  attribute cannot be computed, the form does not render and there is no click.
\<close>

definition click :: "FormField \<Rightarrow> jsstring \<Rightarrow> Viewer \<Rightarrow> js_error + Viewer" where
  "click field opt s =
     (case isChecked field opt s of
        Inl e \<Rightarrow> Inl e
      | Inr ticked \<Rightarrow> onCheckedChange field opt (\<not> ticked) s)"


section \<open>Conditions used in the statements\<close>


text \<open>A text input left empty: no answer, or a string that is blank.\<close>

definition emptyText :: "answer option \<Rightarrow> bool" where
  "emptyText a = (case a of None \<Rightarrow> True | Some (Str t) \<Rightarrow> trim t = [] | Some (Arr xs) \<Rightarrow> False)"

text \<open>
  The respondent's email and name are known to the viewer, from the session or
  from what was typed under the reserved key.
\<close>

definition known :: "jsstring \<Rightarrow> answer option \<Rightarrow> bool" where
  "known u a \<longleftrightarrow>
     u \<noteq> [] \<or> (case a of Some (Str t) \<Rightarrow> trim t \<noteq> [] | Some (Arr xs) \<Rightarrow> False | None \<Rightarrow> False)"

definition identified :: "Viewer \<Rightarrow> bool" where
  "identified s \<longleftrightarrow>
     known (userEmail s) (answers s (js ''user_email''))
     \<and> known (userName s) (answers s (js ''user_name''))"

text \<open>
  No sequence is stored under a reserved key: the inputs of the email and of the name
  store strings.
\<close>

definition reservedAsTyped :: "Viewer \<Rightarrow> bool" where
  "reservedAsTyped s \<longleftrightarrow>
     (case answers s (js ''user_email'') of Some (Arr xs) \<Rightarrow> False | Some (Str t) \<Rightarrow> True
      | None \<Rightarrow> True)
     \<and> (case answers s (js ''user_name'') of Some (Arr xs) \<Rightarrow> False | Some (Str t) \<Rightarrow> True
        | None \<Rightarrow> True)"

text \<open>The entries that \<open>validateForm\<close> makes for the two reserved keys.\<close>

definition reservedErrors :: "Viewer \<Rightarrow> (jsstring \<times> jsstring) list" where
  "reservedErrors s =
     (if userName s = [] \<and> blank (getAnswer (answers s) (js ''user_name'')) = Inr True
      then AList.update (js ''user_name'') (js ''Name is required'') else id)
     (if userEmail s = [] \<and> blank (getAnswer (answers s) (js ''user_email'')) = Inr True
      then [(js ''user_email'', js ''Email is required'')] else [])"

text \<open>The value of a string of decimal digits, the inverse of \<open>digits\<close>.\<close>

definition undigits :: "jsstring \<Rightarrow> nat" where
  "undigits cs = foldl (\<lambda>a c. 10 * a + (unat c - 48)) 0 cs"


section \<open>Example forms and states\<close>

text \<open>A required text field and an optional checkbox group, as a respondent sees them.\<close>

definition exText :: FormField where
  "exText = \<lparr>id_f = js ''f1'', type_f = short_text, label = js ''Name'', required = True,
             options = None, placeholder = Some []\<rparr>"

definition exBoxes :: FormField where
  "exBoxes = \<lparr>id_f = js ''f2'', type_f = checkbox, label = js ''Topics'', required = False,
              options = Some [js ''Option 1'', js ''Option 2''], placeholder = None\<rparr>"


text \<open>Two fields that carry the same id, as two calls of \<open>addField\<close> at one clock
  reading or a stored form can produce them.\<close>

definition exTwinA :: FormField where
  "exTwinA = \<lparr>id_f = js ''x'', type_f = short_text, label = js ''A'', required = False,
              options = None, placeholder = Some []\<rparr>"

definition exTwinB :: FormField where
  "exTwinB = \<lparr>id_f = js ''x'', type_f = multiple_choice, label = js ''B'', required = False,
              options = Some [js ''Yes'', js ''No''], placeholder = None\<rparr>"

text \<open>A respondent who is signed in, before any input, and an anonymous one.\<close>

definition exViewer :: Viewer where
  "exViewer = \<lparr>form = Some [exText, exBoxes], routeFormId = Some (js ''form1''),
               submitting = False, submitted = False, answers = Map.empty, errors = [],
               startTime = 0, userEmail = js ''ann@example.org'', userName = js ''Ann''\<rparr>"

definition exAnonymous :: Viewer where
  "exAnonymous = exViewer\<lparr>userEmail := [], userName := []\<rparr>"

definition exEnv :: SubmitEnv where
  "exEnv = \<lparr>dateNow = 4200, authUserId = None, insertError = False, userAgent = js ''UA''\<rparr>"

definition exDraft :: FormData where
  "exDraft = \<lparr>title = js ''Survey'', description = [], fields_f = [exText, exBoxes],
              is_published = True\<rparr>"

definition exSaveEnv :: SaveEnv where
  "exSaveEnv = \<lparr>formId = Some (js ''form1''), user = Some (js ''u1''), storeError = False\<rparr>"

section \<open>Facts about strings and arrays\<close>

lemma trim_Nil_iff: "trim t = [] \<longleftrightarrow> (\<forall>c\<in>set t. isWhiteSpace c)"
proof
  assume "trim t = []"
  then have all: "\<forall>x\<in>set (dropWhile isWhiteSpace t). isWhiteSpace x"
    by (simp add: trim_def dropWhile_eq_Nil_conv)
  have "dropWhile isWhiteSpace t = []"
  proof (rule ccontr)
    assume ne: "dropWhile isWhiteSpace t \<noteq> []"
    then have "\<not> isWhiteSpace (hd (dropWhile isWhiteSpace t))" by (rule hd_dropWhile)
    moreover have "hd (dropWhile isWhiteSpace t) \<in> set (dropWhile isWhiteSpace t)"
      using ne by simp
    ultimately show False using all by blast
  qed
  then show "\<forall>c\<in>set t. isWhiteSpace c" by (simp add: dropWhile_eq_Nil_conv)
next
  assume "\<forall>c\<in>set t. isWhiteSpace c"
  then have d: "dropWhile isWhiteSpace t = []" by (simp add: dropWhile_eq_Nil_conv)
  show "trim t = []" unfolding trim_def d by simp
qed

lemma unat_digit: "d < 10 \<Longrightarrow> unat (of_nat (48 + d) :: 16 word) = 48 + d"
  by (subst unat_of_nat) simp

lemma unat_digit_sum: "d < 10 \<Longrightarrow> unat (48 + of_nat d :: 16 word) = 48 + d"
  using unat_digit[of d] by simp

lemma undigits_digits: "undigits (digits n) = n"
proof (induction n rule: digits.induct)
  case (1 n)
  show ?case
  proof (cases "n < 10")
    case True
    then show ?thesis by (subst digits.simps) (simp add: undigits_def unat_digit_sum)
  next
    case False
    have m: "n mod 10 < 10" by simp
    have "undigits (digits n) =
            10 * undigits (digits (n div 10)) + (unat (of_nat (48 + n mod 10) :: 16 word) - 48)"
      using False by (subst digits.simps) (simp add: undigits_def)
    also have "unat (of_nat (48 + n mod 10) :: 16 word) = 48 + n mod 10"
      using m by (rule unat_digit)
    finally show ?thesis using 1 False by simp
  qed
qed

lemma digits_inj: "digits m = digits n \<Longrightarrow> m = n"
  by (metis undigits_digits)

lemma digits_first: "\<exists>c cs. digits n = c # cs \<and> 48 \<le> unat c"
proof (induction n rule: digits.induct)
  case (1 n)
  show ?case
  proof (cases "n < 10")
    case True
    then show ?thesis by (subst digits.simps) (simp add: unat_digit_sum)
  next
    case False
    with 1 obtain c cs where "digits (n div 10) = c # cs" "48 \<le> unat c" by auto
    then show ?thesis using False by (subst digits.simps) simp
  qed
qed

lemma minus_sign_no_digit: "0x2D # digits m \<noteq> digits n"
proof
  assume "0x2D # digits m = digits n"
  moreover obtain c cs where "digits n = c # cs" "48 \<le> unat c" using digits_first by blast
  ultimately have "48 \<le> unat (0x2D :: 16 word)" by simp
  then show False by simp
qed

lemma numberToString_inj: "numberToString a = numberToString b \<Longrightarrow> a = b"
proof -
  assume e: "numberToString a = numberToString b"
  show ?thesis
  proof (cases "a < 0"; cases "b < 0")
    assume "a < 0" "b < 0"
    with e have "nat (- a) = nat (- b)" by (auto simp: numberToString_def dest: digits_inj)
    then show ?thesis using \<open>a < 0\<close> \<open>b < 0\<close> by simp
  next
    assume "a < 0" "\<not> b < 0"
    with e minus_sign_no_digit show ?thesis by (auto simp: numberToString_def)
  next
    assume "\<not> a < 0" "b < 0"
    with e minus_sign_no_digit[of "nat (- b)" "nat a"] show ?thesis
      by (auto simp: numberToString_def)
  next
    assume "\<not> a < 0" "\<not> b < 0"
    with e have "nat a = nat b" by (auto simp: numberToString_def dest: digits_inj)
    then show ?thesis using \<open>\<not> a < 0\<close> \<open>\<not> b < 0\<close> by simp
  qed
qed

lemma newField_id_inj: "id_f (newField a) = id_f (newField b) \<longleftrightarrow> a = b"
  by (auto simp: newField_def dest: numberToString_inj)

lemma findIndex_first:
  "i < length xs \<Longrightarrow> P (xs ! i) \<Longrightarrow> (\<And>j. j < i \<Longrightarrow> \<not> P (xs ! j)) \<Longrightarrow> findIndex P xs = int i"
proof (induction xs arbitrary: i)
  case Nil
  then show ?case by simp
next
  case (Cons x xs)
  show ?case
  proof (cases i)
    case 0
    with Cons.prems show ?thesis by simp
  next
    case (Suc k)
    have nx: "\<not> P x" using Cons.prems(3)[of 0] Suc by simp
    have "findIndex P xs = int k"
    proof (rule Cons.IH)
      show "k < length xs" using Cons.prems(1) Suc by simp
      show "P (xs ! k)" using Cons.prems(2) Suc by simp
      show "\<And>j. j < k \<Longrightarrow> \<not> P (xs ! j)" using Cons.prems(3)[of "Suc j" for j] Suc by auto
    qed
    with nx Suc show ?thesis by (simp add: Let_def)
  qed
qed

lemma findIndex_none: "(\<And>x. x \<in> set xs \<Longrightarrow> \<not> P x) \<Longrightarrow> findIndex P xs = - 1"
  by (induction xs) (auto simp: Let_def)

lemma first_occurrence:
  "x \<in> set xs \<Longrightarrow> P x \<Longrightarrow> \<exists>i<length xs. P (xs ! i) \<and> (\<forall>j<i. \<not> P (xs ! j))"
proof (induction xs)
  case Nil
  then show ?case by simp
next
  case (Cons y ys)
  show ?case
  proof (cases "P y")
    case True
    then have "0 < length (y # ys) \<and> P ((y # ys) ! 0) \<and> (\<forall>j<0. \<not> P ((y # ys) ! j))"
      by simp
    then show ?thesis by blast
  next
    case False
    with Cons obtain i where i: "i < length ys" "P (ys ! i)" "\<forall>j<i. \<not> P (ys ! j)" by auto
    have "\<forall>j<Suc i. \<not> P ((y # ys) ! j)"
    proof (intro allI impI)
      fix j assume "j < Suc i"
      then show "\<not> P ((y # ys) ! j)" using False i(3) by (cases j) auto
    qed
    with i show ?thesis by (intro exI[of _ "Suc i"]) simp
  qed
qed


section \<open>The builder's operations\<close>

lemma moveField_at_first_index:
  assumes "i < length fs" and "\<And>j. j < i \<Longrightarrow> id_f (fs ! j) \<noteq> id_f (fs ! i)"
  shows "moveField (id_f (fs ! i)) Up fs =
           map Some (if i = 0 then fs else fs[i := fs ! (i - 1), i - 1 := fs ! i])"
    and "moveField (id_f (fs ! i)) Down fs =
           map Some (if i = length fs - 1 then fs else fs[i := fs ! (i + 1), i + 1 := fs ! i])"
proof -
  have ix: "findIndex (\<lambda>f. id_f f = id_f (fs ! i)) fs = int i"
    using assms by (intro findIndex_first) auto
  show "moveField (id_f (fs ! i)) Up fs =
           map Some (if i = 0 then fs else fs[i := fs ! (i - 1), i - 1 := fs ! i])"
    using assms(1)
    by (auto simp: moveField_def ix Let_def arrayGet_def arraySet_def map_update
                   nat_diff_distrib)
  show "moveField (id_f (fs ! i)) Down fs =
           map Some (if i = length fs - 1 then fs else fs[i := fs ! (i + 1), i + 1 := fs ! i])"
    using assms(1)
    by (auto simp: moveField_def ix Let_def arrayGet_def arraySet_def map_update
                   nat_add_distrib)
qed

lemma moveField_missing_up: "fid \<notin> id_f ` set fs \<Longrightarrow> moveField fid Up fs = map Some fs"
  by (subst moveField_def, subst findIndex_none) (auto simp: Let_def)

lemma updateField_missing: "fid \<notin> id_f ` set fs \<Longrightarrow> updateField fid u fs = fs"
  by (induction fs) (auto simp: updateField_def)

lemma removeField_missing: "fid \<notin> id_f ` set fs \<Longrightarrow> removeField fid fs = fs"
  by (induction fs) (auto simp: removeField_def)

lemma slotsOk_map_Some: "slotsOk (map Some fs) = fieldsOk fs"
  by (induction fs) (auto simp: slotsOk_def fieldsOk_def)

lemma fieldsOk_update: "fieldsOk fs \<Longrightarrow> fieldOk x \<Longrightarrow> fieldsOk (fs[k := x])"
  unfolding fieldsOk_def list_all_iff using set_update_subset_insert[of fs k x] by auto

lemma fieldsOk_nth: "fieldsOk fs \<Longrightarrow> k < length fs \<Longrightarrow> fieldOk (fs ! k)"
  by (simp add: fieldsOk_def list_all_length)

lemma moveField_present_ok:
  assumes "fieldsOk fs" and "fid \<in> id_f ` set fs"
  shows "slotsOk (moveField fid d fs)"
proof -
  from assms(2) obtain x where "x \<in> set fs" "id_f x = fid" by auto
  then obtain i where i: "i < length fs" "id_f (fs ! i) = fid" "\<forall>j<i. id_f (fs ! j) \<noteq> fid"
    using first_occurrence[of x fs "\<lambda>f. id_f f = fid"] by auto
  have up: "moveField fid Up fs =
              map Some (if i = 0 then fs else fs[i := fs ! (i - 1), i - 1 := fs ! i])"
    using moveField_at_first_index(1)[of i fs] i by auto
  have down: "moveField fid Down fs =
                map Some (if i = length fs - 1 then fs
                          else fs[i := fs ! (i + 1), i + 1 := fs ! i])"
    using moveField_at_first_index(2)[of i fs] i by auto
  show ?thesis
  proof (cases d)
    case Up
    show ?thesis
    proof (cases "i = 0")
      case True
      with up Up assms(1) show ?thesis by (simp add: slotsOk_map_Some)
    next
      case False
      have "fieldsOk (fs[i := fs ! (i - 1), i - 1 := fs ! i])"
        using assms(1) i(1) by (intro fieldsOk_update fieldsOk_nth) auto
      with up Up False show ?thesis by (simp add: slotsOk_map_Some)
    qed
  next
    case Down
    show ?thesis
    proof (cases "i = length fs - 1")
      case True
      with down Down assms(1) show ?thesis by (simp add: slotsOk_map_Some)
    next
      case False
      have "fieldsOk (fs[i := fs ! (i + 1), i + 1 := fs ! i])"
        using assms(1) i(1) False by (intro fieldsOk_update fieldsOk_nth) auto
      with down Down False show ?thesis by (simp add: slotsOk_map_Some)
    qed
  qed
qed

lemma typeUpdates_ok: "fieldOk (spread f (typeUpdates f v))"
  by (auto simp: fieldOk_def spread_def typeUpdates_def noUpdates_def Let_def)

lemma onValueChange_nth:
  assumes "i < length fs"
  shows "onValueChange (fs ! i) v fs ! i =
           (fs ! i)\<lparr>type_f := v,
                    options := (if isChoice v
                                then (case options (fs ! i) of
                                        None \<Rightarrow> Some [js ''Option 1'', js ''Option 2'']
                                      | Some xs \<Rightarrow> Some xs)
                                else None)\<rparr>"
  using assms
  by (auto simp: onValueChange_def updateField_def spread_def typeUpdates_def noUpdates_def
                 Let_def split: option.splits)

lemma onValueChange_ok:
  assumes "fieldsOk fs" and "i < length fs"
    and "\<And>j. j < length fs \<Longrightarrow> j \<noteq> i \<Longrightarrow> id_f (fs ! j) \<noteq> id_f (fs ! i)"
  shows "fieldsOk (onValueChange (fs ! i) v fs)"
  unfolding fieldsOk_def list_all_length
proof (intro allI impI)
  fix n assume n: "n < length (onValueChange (fs ! i) v fs)"
  then have nl: "n < length fs" by (simp add: onValueChange_def updateField_def)
  show "fieldOk (onValueChange (fs ! i) v fs ! n)"
  proof (cases "n = i")
    case True
    then show ?thesis using nl
      by (simp add: onValueChange_def updateField_def typeUpdates_ok)
  next
    case False
    then have "id_f (fs ! n) \<noteq> id_f (fs ! i)" using assms(3) nl by simp
    then show ?thesis using nl fieldsOk_nth[OF assms(1) nl]
      by (simp add: onValueChange_def updateField_def)
  qed
qed

lemma addField_ok: "fieldsOk fs \<Longrightarrow> fieldsOk (addField now fs)"
  by (simp add: fieldsOk_def addField_def newField_def fieldOk_def isChoice_def)

lemma removeField_ok: "fieldsOk fs \<Longrightarrow> fieldsOk (removeField fid fs)"
  by (simp add: fieldsOk_def removeField_def list_all_iff)


section \<open>Validation\<close>

lemma only_TypeError: "(e :: js_error) = TypeError"
  by (cases e) simp

lemma reserved_not_inherited:
  "\<not> inherited (js ''user_email'')" "\<not> inherited (js ''user_name'')"
  by (simp_all add: inherited_def objectPrototype_def js_def)

lemma proto_inherited: "inherited (js ''__proto__'')"
  by (simp add: inherited_def objectPrototype_def)

lemma getAnswer_own:
  "\<not> inherited k \<Longrightarrow> getAnswer ans k = (case ans k of None \<Rightarrow> Undefined | Some v \<Rightarrow> Own v)"
  by (simp add: getAnswer_def split: option.splits)

lemma answerMissing_iff:
  "answerMissing a \<longleftrightarrow> a = Undefined \<or> (\<exists>v. a = Own v \<and> trim (toString v) = [])"
proof (cases a)
  case Undefined
  then show ?thesis by (simp add: answerMissing_def)
next
  case (Own v)
  then show ?thesis by (cases v) (auto simp: answerMissing_def trim_def)
next
  case Inherited
  then show ?thesis by (simp add: answerMissing_def)
qed

lemma answerMissing_own:
  assumes "\<not> inherited k"
  shows "answerMissing (getAnswer ans k) \<longleftrightarrow>
           ans k = None \<or> (\<exists>t. ans k = Some (Str t) \<and> trim t = [])
           \<or> (\<exists>xs. ans k = Some (Arr xs) \<and> trim (join xs) = [])"
proof (cases "ans k")
  case None
  then show ?thesis using assms by (simp add: getAnswer_own answerMissing_iff)
next
  case (Some v)
  then show ?thesis using assms by (cases v) (simp_all add: getAnswer_own answerMissing_iff)
qed

text \<open>
  Where a required field's id names an inherited property and no answer is stored, the
  read finds the inherited value and the loop records no error.
\<close>

lemma checkField_inherited_unanswered:
  "inherited (id_f f) \<Longrightarrow> ans (id_f f) = None \<Longrightarrow> checkField ans errs f = errs"
  by (simp add: checkField_def getAnswer_def answerMissing_def)



lemma blank_own:
  assumes "\<not> inherited k"
  shows "blank (getAnswer ans k) = Inr True \<longleftrightarrow>
           ans k = None \<or> (\<exists>t. ans k = Some (Str t) \<and> trim t = [])"
    and "blank (getAnswer ans k) = Inl TypeError \<longleftrightarrow> (\<exists>xs. ans k = Some (Arr xs))"
  using assms
  by (auto simp: getAnswer_own blank_def trim_def split: option.splits answer.splits)

lemma setError_reserved:
  "setError (js ''user_email'') m e = AList.update (js ''user_email'') m e"
  "setError (js ''user_name'') m e = AList.update (js ''user_name'') m e"
  by (simp_all add: setError_def js_def)

lemma newErrorsOf_throws:
  "newErrorsOf s = Inl TypeError \<longleftrightarrow>
     (userEmail s = [] \<and> (\<exists>xs. answers s (js ''user_email'') = Some (Arr xs)))
     \<or> (userName s = [] \<and> (\<exists>xs. answers s (js ''user_name'') = Some (Arr xs)))"
proof -
  have e: "blank (getAnswer (answers s) (js ''user_email'')) = Inl TypeError \<longleftrightarrow>
             (\<exists>xs. answers s (js ''user_email'') = Some (Arr xs))"
    and n: "blank (getAnswer (answers s) (js ''user_name'')) = Inl TypeError \<longleftrightarrow>
             (\<exists>xs. answers s (js ''user_name'') = Some (Arr xs))"
    using blank_own(2) reserved_not_inherited by blast+
  show ?thesis
    unfolding e[symmetric] n[symmetric]
    by (auto simp: newErrorsOf_def Let_def split: sum.splits intro: only_TypeError)
qed


lemma newErrorsOf_Inr:
  assumes "newErrorsOf s = Inr errs"
  shows "errs = foldl (checkField (answers s)) (reservedErrors s) (fieldsOf s)"
  using assms
  by (auto simp: newErrorsOf_def reservedErrors_def setError_reserved Let_def
           split: sum.splits if_splits)



lemma known_not_blank:
  "\<not> inherited k \<Longrightarrow> known u (ans k) \<Longrightarrow>
     (if u = [] then blank (getAnswer ans k) else Inr False) = Inr False"
  by (auto simp: known_def getAnswer_own blank_def trim_def
           split: option.splits answer.splits)

lemma emptyText_missing:
  "\<not> inherited k \<Longrightarrow> emptyText (ans k) \<Longrightarrow> answerMissing (getAnswer ans k)"
  by (auto simp: emptyText_def answerMissing_own split: option.splits answer.splits)

lemma newErrorsOf_identified:
  assumes "identified s"
  shows "newErrorsOf s = Inr (foldl (checkField (answers s)) [] (fieldsOf s))"
  using assms known_not_blank reserved_not_inherited
  by (simp add: newErrorsOf_def identified_def Let_def)

lemma reservedErrors_identified: "identified s \<Longrightarrow> reservedErrors s = []"
  using known_not_blank[OF reserved_not_inherited(1), of "userEmail s" "answers s"]
        known_not_blank[OF reserved_not_inherited(2), of "userName s" "answers s"]
  by (auto simp: identified_def reservedErrors_def split: if_splits)

lemma reservedAsTyped_returns:
  assumes "reservedAsTyped s"
  shows "\<exists>errs. newErrorsOf s = Inr errs"
proof (cases "newErrorsOf s")
  case (Inl e)
  then have "newErrorsOf s = Inl TypeError" by (cases e) simp
  then show ?thesis
    using assms by (auto simp: newErrorsOf_throws reservedAsTyped_def)
next
  case (Inr errs)
  then show ?thesis by blast
qed


section \<open>The checkbox group\<close>

lemma click_unticked_sequence:
  assumes "currentOptions (getAnswer (answers s) (id_f field)) = Own (Arr cur)"
    and "isChecked field opt s = Inr False"
  shows "opt \<notin> set cur"
    and "click field opt s = Inr (updateAnswer (id_f field) (Arr (cur @ [opt])) s)"
  using assms by (auto simp: isChecked_def click_def onCheckedChange_def spreadRead_def Let_def)

lemma stored_sequence_current:
  "answers s k = Some (Arr xs) \<Longrightarrow> currentOptions (getAnswer (answers s) k) = Own (Arr xs)"
  by (simp add: getAnswer_def currentOptions_def)

lemma click_ticked_sequence:
  assumes "answers s (id_f field) = Some (Arr xs)" and "opt \<in> set xs"
  shows "isChecked field opt s = Inr True"
    and "click field opt s
           = Inr (updateAnswer (id_f field) (Arr (filter (\<lambda>x. x \<noteq> opt) xs)) s)"
  using assms stored_sequence_current[OF assms(1)]
  by (auto simp: isChecked_def click_def onCheckedChange_def filterRead_def Let_def)

lemma click_round_trip:
  assumes "currentOptions (getAnswer (answers s) (id_f field)) = Own (Arr cur)"
    and "isChecked field opt s = Inr False"
  shows "\<exists>s1 s2. click field opt s = Inr s1
           \<and> answers s1 = (answers s)(id_f field \<mapsto> Arr (cur @ [opt]))
           \<and> isChecked field opt s1 = Inr True
           \<and> click field opt s1 = Inr s2
           \<and> answers s2 = (answers s)(id_f field \<mapsto> Arr cur)"
proof -
  let ?s1 = "updateAnswer (id_f field) (Arr (cur @ [opt])) s"
  have n: "opt \<notin> set cur" and c1: "click field opt s = Inr ?s1"
    using click_unticked_sequence[OF assms] by blast+
  have a1: "answers ?s1 = (answers s)(id_f field \<mapsto> Arr (cur @ [opt]))"
    by (simp add: updateAnswer_def)
  then have st: "answers ?s1 (id_f field) = Some (Arr (cur @ [opt]))" by simp
  have m: "opt \<in> set (cur @ [opt])" by simp
  have f: "filter (\<lambda>x. x \<noteq> opt) (cur @ [opt]) = cur" using n by (auto simp: filter_id_conv)
  have t1: "isChecked field opt ?s1 = Inr True"
    and c2: "click field opt ?s1 = Inr (updateAnswer (id_f field) (Arr cur) ?s1)"
    using click_ticked_sequence[OF st m] f by simp_all
  have a2: "answers (updateAnswer (id_f field) (Arr cur) ?s1)
              = (answers s)(id_f field \<mapsto> Arr cur)"
    by (simp add: updateAnswer_def)
  show ?thesis using c1 a1 t1 c2 a2 by blast
qed

text \<open>
  Where the field's id names an inherited property and no answer is stored, the group
  reads the inherited value: the attribute \<open>checked\<close> and both events throw.
\<close>

lemma checkbox_inherited_unanswered:
  assumes "inherited (id_f field)" and "answers s (id_f field) = None"
  shows "isChecked field opt s = Inl TypeError"
    and "onCheckedChange field opt checked s = Inl TypeError"
  using assms
  by (simp_all add: isChecked_def onCheckedChange_def getAnswer_def currentOptions_def
                    spreadRead_def filterRead_def Let_def)

lemma onCheckedChange_stores_sequence:
  "onCheckedChange field opt checked s = Inr s' \<Longrightarrow>
     \<exists>xs. answers s' (id_f field) = Some (Arr xs)"
  by (auto simp: onCheckedChange_def updateAnswer_def Let_def split: if_splits sum.splits)


section \<open>Properties of the builder and the viewer\<close>




text \<open>
  C2, as amended. For a field at position i whose id occurs at no earlier position
  (any position, when the ids are pairwise distinct): \<open>moveField\<close> with that field's id
  leaves the sequence unchanged for \<open>up\<close> at the first position and for \<open>down\<close> at the
  last one; otherwise it exchanges the field with its neighbour in the given direction,
  and every other position keeps its field.
\<close>

theorem moveField_swaps_neighbour:
  assumes "i < length fs" and "\<forall>j<i. id_f (fs ! j) \<noteq> id_f (fs ! i)"
  shows "moveField (id_f (fs ! i)) Up fs =
           map Some (if i = 0 then fs else fs[i := fs ! (i - 1), i - 1 := fs ! i])
         \<and> moveField (id_f (fs ! i)) Down fs =
           map Some (if i = length fs - 1 then fs
                     else fs[i := fs ! (i + 1), i + 1 := fs ! i])
         \<and> (0 < i \<longrightarrow> moveField (id_f (fs ! i)) Up fs ! (i - 1) = Some (fs ! i)
                     \<and> moveField (id_f (fs ! i)) Up fs ! i = Some (fs ! (i - 1)))
         \<and> (i + 1 < length fs \<longrightarrow>
               moveField (id_f (fs ! i)) Down fs ! i = Some (fs ! (i + 1))
               \<and> moveField (id_f (fs ! i)) Down fs ! (i + 1) = Some (fs ! i))
         \<and> (\<forall>k<length fs. k \<noteq> i \<longrightarrow> k \<noteq> i - 1 \<longrightarrow>
               moveField (id_f (fs ! i)) Up fs ! k = Some (fs ! k))
         \<and> (\<forall>k<length fs. k \<noteq> i \<longrightarrow> k \<noteq> i + 1 \<longrightarrow>
               moveField (id_f (fs ! i)) Down fs ! k = Some (fs ! k))"
proof -
  have up: "moveField (id_f (fs ! i)) Up fs =
              map Some (if i = 0 then fs else fs[i := fs ! (i - 1), i - 1 := fs ! i])"
    and down: "moveField (id_f (fs ! i)) Down fs =
              map Some (if i = length fs - 1 then fs
                        else fs[i := fs ! (i + 1), i + 1 := fs ! i])"
    using moveField_at_first_index[of i fs] assms by blast+
  have swapped_up: "moveField (id_f (fs ! i)) Up fs ! (i - 1) = Some (fs ! i)
                    \<and> moveField (id_f (fs ! i)) Up fs ! i = Some (fs ! (i - 1))"
    if "0 < i"
    using that assms(1) by (simp add: up nth_list_update)
  have swapped_down: "moveField (id_f (fs ! i)) Down fs ! i = Some (fs ! (i + 1))
                      \<and> moveField (id_f (fs ! i)) Down fs ! (i + 1) = Some (fs ! i)"
    if "i + 1 < length fs"
    using that by (simp add: down nth_list_update)
  have rest_up: "moveField (id_f (fs ! i)) Up fs ! k = Some (fs ! k)"
    if "k < length fs" "k \<noteq> i" "k \<noteq> i - 1" for k
    using that by (simp add: up nth_list_update)
  have rest_down: "moveField (id_f (fs ! i)) Down fs ! k = Some (fs ! k)"
    if "k < length fs" "k \<noteq> i" "k \<noteq> i + 1" for k
    using that by (simp add: down nth_list_update)
  show ?thesis using up down swapped_up swapped_down rest_up rest_down by blast
qed

theorem moveField_swaps_neighbour_witness:
  "(1::nat) < length [exText, exBoxes]
   \<and> id_f ([exText, exBoxes] ! 0) \<noteq> id_f ([exText, exBoxes] ! 1)
   \<and> moveField (js ''f2'') Up [exText, exBoxes] = [Some exBoxes, Some exText]
   \<and> moveField (js ''f2'') Down [exText, exBoxes] = [Some exText, Some exBoxes]"
proof -
  have h: "\<forall>j<1. id_f ([exText, exBoxes] ! j) \<noteq> id_f ([exText, exBoxes] ! 1)"
    by (simp add: exText_def exBoxes_def js_def)
  have i: "id_f ([exText, exBoxes] ! 1) = js ''f2''" by (simp add: exBoxes_def)
  have "moveField (id_f ([exText, exBoxes] ! 1)) Up [exText, exBoxes] =
          map Some (if (1::nat) = 0 then [exText, exBoxes]
                    else [exText, exBoxes][1 := [exText, exBoxes] ! (1 - 1),
                                           1 - 1 := [exText, exBoxes] ! 1])
        \<and> moveField (id_f ([exText, exBoxes] ! 1)) Down [exText, exBoxes] =
          map Some (if (1::nat) = length [exText, exBoxes] - 1 then [exText, exBoxes]
                    else [exText, exBoxes][1 := [exText, exBoxes] ! (1 + 1),
                                           1 + 1 := [exText, exBoxes] ! 1])"
    using moveField_swaps_neighbour[of 1 "[exText, exBoxes]"] h by simp
  then show ?thesis using h i by simp
qed

theorem moveField_shared_id_counterexample:
  "moveField (id_f ([exTwinA, exTwinB] ! 1)) Up [exTwinA, exTwinB]
     = [Some exTwinA, Some exTwinB]
   \<and> [Some exTwinA, Some exTwinB] \<noteq> [Some exTwinB, Some exTwinA]"
  by (simp add: moveField_def Let_def exTwinA_def exTwinB_def)

text \<open>
  C3. For a field at any position of the sequence whose \<open>options\<close> is undefined,
  choosing one of the types multiple_choice, checkbox and dropdown in its type selector
  gives it that type and the options \<open>["Option 1", "Option 2"]\<close>; choosing any other
  type gives any field that type and clears its options.
\<close>

theorem onValueChange_seeds_options:
  assumes "i < length fs"
  shows "(options (fs ! i) = None \<longrightarrow> v \<in> {multiple_choice, checkbox, dropdown} \<longrightarrow>
            onValueChange (fs ! i) v fs ! i
              = (fs ! i)\<lparr>type_f := v, options := Some [js ''Option 1'', js ''Option 2'']\<rparr>)
         \<and> (v \<notin> {multiple_choice, checkbox, dropdown} \<longrightarrow>
            onValueChange (fs ! i) v fs ! i = (fs ! i)\<lparr>type_f := v, options := None\<rparr>)"
  using onValueChange_nth[OF assms, of v] by (auto simp: isChoice_def)

theorem onValueChange_seeds_options_witness:
  "(0::nat) < length [exText, exBoxes] \<and> options ([exText, exBoxes] ! 0) = None
   \<and> dropdown \<in> {multiple_choice, checkbox, dropdown}
   \<and> onValueChange exText dropdown [exText, exBoxes] ! 0
       = exText\<lparr>type_f := dropdown, options := Some [js ''Option 1'', js ''Option 2'']\<rparr>
   \<and> (1::nat) < length [exText, exBoxes] \<and> date \<notin> {multiple_choice, checkbox, dropdown}
   \<and> onValueChange exBoxes date [exText, exBoxes] ! 1
       = exBoxes\<lparr>type_f := date, options := None\<rparr>"
proof -
  have o: "options ([exText, exBoxes] ! 0) = None" by (simp add: exText_def)
  show ?thesis
    using onValueChange_seeds_options[of 0 "[exText, exBoxes]" dropdown]
          onValueChange_seeds_options[of 1 "[exText, exBoxes]" date] o
    by simp
qed

text \<open>
  C4, as amended. On a sequence in which \<open>options\<close> is defined exactly for the fields
  of a choice type, the invariant still holds after \<open>addField\<close>, after \<open>removeField\<close>,
  after a change of type of a field whose id no other field of the sequence carries,
  and after \<open>moveField\<close> of an id that occurs in the sequence.
\<close>

theorem builder_keeps_options_invariant:
  assumes "fieldsOk fs"
  shows "fieldsOk (addField t fs)
         \<and> fieldsOk (removeField fid fs)
         \<and> (i < length fs \<longrightarrow> (\<forall>j<length fs. j \<noteq> i \<longrightarrow> id_f (fs ! j) \<noteq> id_f (fs ! i)) \<longrightarrow>
              fieldsOk (onValueChange (fs ! i) v fs))
         \<and> (fid \<in> id_f ` set fs \<longrightarrow> slotsOk (moveField fid d fs))"
  using assms addField_ok removeField_ok onValueChange_ok[of fs i v] moveField_present_ok
  by blast

theorem builder_keeps_options_invariant_witness:
  "fieldsOk [exText, exBoxes]
   \<and> fieldsOk (addField 7 [exText, exBoxes])
   \<and> fieldsOk (removeField (js ''f2'') [exText, exBoxes])
   \<and> (0::nat) < length [exText, exBoxes]
   \<and> id_f ([exText, exBoxes] ! 1) \<noteq> id_f ([exText, exBoxes] ! 0)
   \<and> fieldsOk (onValueChange exText checkbox [exText, exBoxes])
   \<and> js ''f2'' \<in> id_f ` set [exText, exBoxes]
   \<and> slotsOk (moveField (js ''f2'') Up [exText, exBoxes])"
proof -
  have ok: "fieldsOk [exText, exBoxes]"
    by (simp add: fieldsOk_def fieldOk_def isChoice_def exText_def exBoxes_def)
  have d: "\<forall>j<length [exText, exBoxes]. j \<noteq> 0 \<longrightarrow>
             id_f ([exText, exBoxes] ! j) \<noteq> id_f ([exText, exBoxes] ! 0)"
    by (simp add: exText_def exBoxes_def js_def less_Suc_eq)
  have m: "js ''f2'' \<in> id_f ` set [exText, exBoxes]" by (simp add: exBoxes_def)
  have n: "id_f ([exText, exBoxes] ! 1) \<noteq> id_f ([exText, exBoxes] ! 0)"
    by (simp add: exText_def exBoxes_def js_def)
  have l: "(0::nat) < length [exText, exBoxes]" by simp
  note inst = builder_keeps_options_invariant[OF ok, of 7 "js ''f2''" 0 checkbox Up]
  have a: "fieldsOk (addField 7 [exText, exBoxes])" using inst by blast
  have r: "fieldsOk (removeField (js ''f2'') [exText, exBoxes])" using inst by blast
  have "fieldsOk (onValueChange ([exText, exBoxes] ! 0) checkbox [exText, exBoxes])"
    using inst l d by blast
  then have c: "fieldsOk (onValueChange exText checkbox [exText, exBoxes])" by simp
  have s: "slotsOk (moveField (js ''f2'') Up [exText, exBoxes])" using inst m by blast
  show ?thesis using ok a r l n c m s by blast
qed

theorem type_change_shared_id_counterexample:
  "fieldsOk [exTwinA, exTwinB]
   \<and> \<not> fieldsOk (onValueChange ([exTwinA, exTwinB] ! 1) checkbox [exTwinA, exTwinB])"
  by (simp add: fieldsOk_def fieldOk_def isChoice_def onValueChange_def updateField_def
                typeUpdates_def noUpdates_def spread_def Let_def exTwinA_def exTwinB_def)

text \<open>
  C6 fails on the code. The id of the new field is \<open>field_\<close> followed by the clock
  reading and is not compared with the ids of the sequence: a second \<open>addField\<close> at the
  same reading appends a field whose id the sequence already holds.
\<close>

theorem addField_same_reading_repeats_id:
  "addField 5 (addField 5 []) = [newField 5, newField 5]
   \<and> id_f (newField 5) \<in> id_f ` set (addField 5 [])
   \<and> id_f (newField 5) = js ''field_5''"
  by (simp add: addField_def newField_def numberToString_def digits.simps js_def)

text \<open>
  C10 fails on the code. For an id that no field carries, \<open>moveField\<close> with \<open>down\<close>
  finds the index \<open>-1\<close>, passes the bounds test with the new index \<open>0\<close>, and the swap
  writes \<open>undefined\<close> into the first slot: the first field is lost.
\<close>

theorem moveField_missing_id_down:
  "js ''gone'' \<notin> id_f ` set [exText, exBoxes]
   \<and> moveField (js ''gone'') Down [exText, exBoxes] = [None, Some exBoxes]
   \<and> moveField (js ''gone'') Down [exText, exBoxes] \<noteq> map Some [exText, exBoxes]"
  by (simp add: moveField_def Let_def arrayGet_def arraySet_def exText_def exBoxes_def js_def)


text \<open>
  C5, as amended. A form has a required field, whose id does not name a property
  inherited from \<open>Object.prototype\<close>, and an optional field (in the scenario a short_text
  field and a checkbox field); the required field's input is empty and no sequence is
  stored under a reserved key. Then submitting does not call the store, so no Response
  is created, and it changes nothing of the viewer's state but the error map, the
  answer map included. The error map afterwards holds the entry of the required field,
  added to the entries of the reserved keys \<open>user_email\<close> and \<open>user_name\<close> that are made
  when the respondent's email or name is unknown and not typed in. When both are known,
  the error is for the required field only.
\<close>

theorem handleSubmit_rejects_empty_text:
  assumes "form s = Some [f1, f2]" and "required f1" and "\<not> required f2"
    and "emptyText (answers s (id_f f1))" and "\<not> inherited (id_f f1)"
    and "reservedAsTyped s"
  shows "handleSubmit env s =
           Inr \<lparr>state = s\<lparr>errors := AList.update (id_f f1) (js ''This field is required'')
                                      (reservedErrors s)\<rparr>,
                request = None, submit_toast = ValidationErrorToast\<rparr>
         \<and> (identified s \<longrightarrow>
              handleSubmit env s =
                Inr \<lparr>state = s\<lparr>errors := [(id_f f1, js ''This field is required'')]\<rparr>,
                     request = None, submit_toast = ValidationErrorToast\<rparr>)"
proof -
  have m: "answerMissing (getAnswer (answers s) (id_f f1))"
    using assms(5,4) by (rule emptyText_missing)
  have p: "id_f f1 \<noteq> js ''__proto__''" using assms(5) proto_inherited by auto
  have loop: "foldl (checkField (answers s)) e (fieldsOf s)
                = AList.update (id_f f1) (js ''This field is required'') e" for e
    using assms(1-3) m p by (simp add: fieldsOf_def checkField_def setError_def)
  obtain errs where r: "newErrorsOf s = Inr errs"
    using reservedAsTyped_returns[OF assms(6)] by blast
  then have "errs = AList.update (id_f f1) (js ''This field is required'') (reservedErrors s)"
    using newErrorsOf_Inr[of s errs] loop by simp
  with r have general: "handleSubmit env s =
           Inr \<lparr>state = s\<lparr>errors := AList.update (id_f f1) (js ''This field is required'')
                                      (reservedErrors s)\<rparr>,
                request = None, submit_toast = ValidationErrorToast\<rparr>"
    by (simp add: handleSubmit_def validateForm_def)
  have named: "handleSubmit env s =
                Inr \<lparr>state = s\<lparr>errors := [(id_f f1, js ''This field is required'')]\<rparr>,
                     request = None, submit_toast = ValidationErrorToast\<rparr>"
    if "identified s"
    using general reservedErrors_identified[OF that] by simp
  show ?thesis using general named by blast
qed

theorem handleSubmit_rejects_empty_text_witness:
  "form exViewer = Some [exText, exBoxes] \<and> required exText \<and> \<not> required exBoxes
   \<and> type_f exText = short_text \<and> type_f exBoxes = checkbox
   \<and> emptyText (answers exViewer (id_f exText)) \<and> \<not> inherited (id_f exText)
   \<and> reservedAsTyped exViewer \<and> identified exViewer
   \<and> handleSubmit exEnv exViewer =
       Inr \<lparr>state = exViewer\<lparr>errors := [(js ''f1'', js ''This field is required'')]\<rparr>,
            request = None, submit_toast = ValidationErrorToast\<rparr>
   \<and> answers (exViewer\<lparr>errors := [(js ''f1'', js ''This field is required'')]\<rparr>)
       = answers exViewer"
proof -
  have a: "form exViewer = Some [exText, exBoxes]" by (simp add: exViewer_def)
  have b: "required exText" by (simp add: exText_def)
  have c: "\<not> required exBoxes" by (simp add: exBoxes_def)
  have d: "emptyText (answers exViewer (id_f exText))"
    by (simp add: emptyText_def exViewer_def)
  have i: "\<not> inherited (id_f exText)"
    by (simp add: exText_def inherited_def objectPrototype_def js_def)
  have r: "reservedAsTyped exViewer" by (simp add: reservedAsTyped_def exViewer_def)
  have e: "identified exViewer"
    by (simp add: identified_def known_def exViewer_def js_def)
  have t: "type_f exText = short_text \<and> type_f exBoxes = checkbox \<and> id_f exText = js ''f1''"
    by (simp add: exText_def exBoxes_def)
  have "handleSubmit exEnv exViewer =
          Inr \<lparr>state = exViewer\<lparr>errors := [(id_f exText, js ''This field is required'')]\<rparr>,
               request = None, submit_toast = ValidationErrorToast\<rparr>"
    using handleSubmit_rejects_empty_text[OF a b c d i r, of exEnv] e by blast
  then show ?thesis using a b c d i r e t by simp
qed

theorem handleSubmit_anonymous_counterexample:
  "emptyText (answers exAnonymous (id_f exText))
   \<and> handleSubmit exEnv exAnonymous =
       Inr \<lparr>state = exAnonymous\<lparr>errors := [(js ''user_email'', js ''Email is required''),
                                           (js ''user_name'', js ''Name is required''),
                                           (js ''f1'', js ''This field is required'')]\<rparr>,
            request = None, submit_toast = ValidationErrorToast\<rparr>"
  by (simp add: handleSubmit_def validateForm_def newErrorsOf_def blank_def fieldsOf_def
                checkField_def setError_def answerMissing_def getAnswer_def inherited_def
                objectPrototype_def emptyText_def exAnonymous_def exViewer_def
                exText_def exBoxes_def Let_def js_def)

text \<open>
  C7. For every checkbox field and every sequence stored as its answer: selecting an
  option (a click on its unticked box) and then deselecting the same option (a click on
  the box, now ticked) leaves the answer map as it was before the two clicks. The same
  holds with the sequence that the group reads as current when nothing is stored, the
  empty one, which is then stored. Whatever the state, a checkbox event that returns
  stores an ordered sequence of strings under the field's id.
\<close>

theorem checkbox_select_then_deselect:
  "(answers s (id_f field) = Some (Arr cur) \<longrightarrow> isChecked field opt s = Inr False \<longrightarrow>
      (\<exists>s1 s2. click field opt s = Inr s1
            \<and> answers s1 = (answers s)(id_f field \<mapsto> Arr (cur @ [opt]))
            \<and> isChecked field opt s1 = Inr True
            \<and> click field opt s1 = Inr s2
            \<and> answers s2 = answers s))
   \<and> (currentOptions (getAnswer (answers s) (id_f field)) = Own (Arr cur) \<longrightarrow>
      isChecked field opt s = Inr False \<longrightarrow>
      (\<exists>s1 s2. click field opt s = Inr s1
            \<and> answers s1 = (answers s)(id_f field \<mapsto> Arr (cur @ [opt]))
            \<and> isChecked field opt s1 = Inr True
            \<and> click field opt s1 = Inr s2
            \<and> answers s2 = (answers s)(id_f field \<mapsto> Arr cur)))
   \<and> (\<forall>checked s'. onCheckedChange field opt checked s = Inr s' \<longrightarrow>
          (\<exists>xs. answers s' (id_f field) = Some (Arr xs)))"
proof -
  have stored: "\<exists>s1 s2. click field opt s = Inr s1
            \<and> answers s1 = (answers s)(id_f field \<mapsto> Arr (cur @ [opt]))
            \<and> isChecked field opt s1 = Inr True
            \<and> click field opt s1 = Inr s2
            \<and> answers s2 = answers s"
    if a: "answers s (id_f field) = Some (Arr cur)" and u: "isChecked field opt s = Inr False"
  proof -
    have same: "(answers s)(id_f field \<mapsto> Arr cur) = answers s"
      using a by (auto simp: fun_upd_idem_iff)
    show ?thesis
      using click_round_trip[OF stored_sequence_current[OF a] u] same by simp
  qed
  show ?thesis
    using stored click_round_trip onCheckedChange_stores_sequence by blast
qed

theorem checkbox_select_then_deselect_witness:
  "answers (exViewer\<lparr>answers := [js ''f2'' \<mapsto> Arr [js ''Option 2'']]\<rparr>) (id_f exBoxes)
     = Some (Arr [js ''Option 2''])
   \<and> isChecked exBoxes (js ''Option 1'')
       (exViewer\<lparr>answers := [js ''f2'' \<mapsto> Arr [js ''Option 2'']]\<rparr>) = Inr False
   \<and> (\<exists>s1 s2. click exBoxes (js ''Option 1'')
                 (exViewer\<lparr>answers := [js ''f2'' \<mapsto> Arr [js ''Option 2'']]\<rparr>) = Inr s1
           \<and> answers s1 = [js ''f2'' \<mapsto> Arr [js ''Option 2'', js ''Option 1'']]
           \<and> click exBoxes (js ''Option 1'') s1 = Inr s2
           \<and> answers s2 = [js ''f2'' \<mapsto> Arr [js ''Option 2'']])"
proof -
  let ?s = "exViewer\<lparr>answers := [js ''f2'' \<mapsto> Arr [js ''Option 2'']]\<rparr>"
  have a: "answers ?s (id_f exBoxes) = Some (Arr [js ''Option 2''])"
    by (simp add: exBoxes_def)
  have i: "id_f exBoxes = js ''f2''" by (simp add: exBoxes_def)
  have u: "isChecked exBoxes (js ''Option 1'') ?s = Inr False"
    by (simp add: isChecked_def currentOptions_def getAnswer_def exBoxes_def js_def)
  have "\<exists>s1 s2. click exBoxes (js ''Option 1'') ?s = Inr s1
            \<and> answers s1 = (answers ?s)(id_f exBoxes \<mapsto> Arr ([js ''Option 2''] @ [js ''Option 1'']))
            \<and> isChecked exBoxes (js ''Option 1'') s1 = Inr True
            \<and> click exBoxes (js ''Option 1'') s1 = Inr s2
            \<and> answers s2 = answers ?s"
    using checkbox_select_then_deselect[of ?s exBoxes "[js ''Option 2'']" "js ''Option 1''"]
          a u by blast
  then obtain s1 s2 where "click exBoxes (js ''Option 1'') ?s = Inr s1"
    and "answers s1 = [js ''f2'' \<mapsto> Arr [js ''Option 2'', js ''Option 1'']]"
    and "click exBoxes (js ''Option 1'') s1 = Inr s2"
    and "answers s2 = [js ''f2'' \<mapsto> Arr [js ''Option 2'']]"
    using i by auto
  then show ?thesis using a u by blast
qed

text \<open>
  C8. \<open>updateAnswer\<close> stores the value under the field id and changes no other key of
  the answer map. The error map afterwards is the one before or the one before without
  the entry of that field id; the error of every other key is as it was.
\<close>

theorem updateAnswer_frame:
  "answers (updateAnswer fid v s) = (answers s)(fid \<mapsto> v)
   \<and> (\<forall>k. k \<noteq> fid \<longrightarrow> answers (updateAnswer fid v s) k = answers s k)
   \<and> (errors (updateAnswer fid v s) = errors s
      \<or> errors (updateAnswer fid v s) = AList.delete fid (errors s))
   \<and> (\<forall>k. k \<noteq> fid \<longrightarrow> map_of (errors (updateAnswer fid v s)) k = map_of (errors s) k)
   \<and> (map_of (errors (updateAnswer fid v s)) fid = None
      \<or> map_of (errors (updateAnswer fid v s)) fid = map_of (errors s) fid)"
  by (auto simp: updateAnswer_def delete_conv' split: option.splits)

theorem updateAnswer_frame_witness:
  "js ''f2'' \<noteq> js ''f1''
   \<and> map_of (errors (updateAnswer (js ''f1'') (Str (js ''Ann''))
        (exViewer\<lparr>errors := [(js ''f1'', js ''This field is required''),
                              (js ''f2'', js ''This field is required'')]\<rparr>))) (js ''f2'')
     = Some (js ''This field is required'')
   \<and> errors (updateAnswer (js ''f1'') (Str (js ''Ann''))
        (exViewer\<lparr>errors := [(js ''f1'', js ''This field is required''),
                              (js ''f2'', js ''This field is required'')]\<rparr>))
     = [(js ''f2'', js ''This field is required'')]
   \<and> answers (updateAnswer (js ''f1'') (Str (js ''Ann''))
        (exViewer\<lparr>errors := [(js ''f1'', js ''This field is required''),
                              (js ''f2'', js ''This field is required'')]\<rparr>)) (js ''f2'')
     = None"
proof -
  let ?s = "exViewer\<lparr>errors := [(js ''f1'', js ''This field is required''),
                                 (js ''f2'', js ''This field is required'')]\<rparr>"
  have n: "js ''f2'' \<noteq> js ''f1''" by (simp add: js_def)
  have e: "errors (updateAnswer (js ''f1'') (Str (js ''Ann'')) ?s)
             = [(js ''f2'', js ''This field is required'')]"
    by (simp add: updateAnswer_def js_def)
  have m: "map_of (errors ?s) (js ''f2'') = Some (js ''This field is required'')"
    using n by simp
  have a: "answers ?s (js ''f2'') = None" by (simp add: exViewer_def)
  have "map_of (errors (updateAnswer (js ''f1'') (Str (js ''Ann'')) ?s)) (js ''f2'')
          = map_of (errors ?s) (js ''f2'')
        \<and> answers (updateAnswer (js ''f1'') (Str (js ''Ann'')) ?s) (js ''f2'')
          = answers ?s (js ''f2'')"
    using updateAnswer_frame[of "js ''f1''" "Str (js ''Ann'')" ?s] n by blast
  then show ?thesis using n e m a by simp
qed

text \<open>
  C9. Whenever \<open>handleSave\<close> sends a payload, its \<open>is_published\<close> is \<open>publish\<close> or the
  current \<open>is_published\<close>; the builder's state afterwards is published whenever it was
  before. A payload is sent whenever the title is not blank and a user is signed in.
\<close>

theorem handleSave_publish_monotone:
  "(\<forall>c. sent (handleSave env publish prev) = Some c \<longrightarrow>
        p_is_published (payloadOf c) = (publish \<or> is_published prev))
   \<and> (is_published prev \<longrightarrow> is_published (formData (handleSave env publish prev)))
   \<and> (trim (title prev) \<noteq> [] \<longrightarrow> user env \<noteq> None \<longrightarrow>
        sent (handleSave env publish prev) \<noteq> None)"
  by (auto simp: handleSave_def Let_def split: option.splits if_splits)

theorem handleSave_publish_monotone_witness:
  "is_published exDraft \<and> trim (title exDraft) \<noteq> [] \<and> user exSaveEnv \<noteq> None
   \<and> (\<exists>c. sent (handleSave exSaveEnv False exDraft) = Some c
          \<and> p_is_published (payloadOf c))
   \<and> is_published (formData (handleSave exSaveEnv False exDraft))"
proof -
  have p: "is_published exDraft" by (simp add: exDraft_def)
  have t: "trim (title exDraft) \<noteq> []"
    by (simp add: exDraft_def trim_def isWhiteSpace_def js_def)
  have u: "user exSaveEnv \<noteq> None" by (simp add: exSaveEnv_def)
  note inst = handleSave_publish_monotone[of exSaveEnv False exDraft]
  have "sent (handleSave exSaveEnv False exDraft) \<noteq> None" using inst t u by blast
  then obtain c where c: "sent (handleSave exSaveEnv False exDraft) = Some c" by blast
  then have "p_is_published (payloadOf c)" using inst p by blast
  moreover have "is_published (formData (handleSave exSaveEnv False exDraft))"
    using inst p by blast
  ultimately show ?thesis using p t u c by blast
qed

end
